theory Spec2Isabelle
  imports Complex_Main "HOL-Library.Word" "HOL-Library.AList"
begin

section \<open>Python values\<close>

text \<open>
  The notebook \<^verbatim>\<open>IF-Image-Demo.ipynb\<close> reads the fields of dataset records, which are
  duck-typed: text, bytes, integers or \<^verbatim>\<open>None\<close>. A Python \<^verbatim>\<open>str\<close> is a sequence of
  Unicode code points, a \<^verbatim>\<open>bytes\<close> object a sequence of octets, and an \<^verbatim>\<open>int\<close> is
  unbounded.
\<close>

type_synonym pystr = "nat list"

type_synonym pybytes = "8 word list"

datatype pyval = PNone | PStr pystr | PBytes pybytes | PInt int

text \<open>
  Exceptions are values. \<open>Raised msg\<close> stands for an exception of one of the libraries the
  notebook calls (the image decoder, the preprocessing transform, the network).
\<close>

datatype error = UnicodeDecodeError | TypeError | IndexError | KeyError | ValueError
  | Raised pystr

text \<open>A string literal of the source, as code points.\<close>

definition lit :: "string \<Rightarrow> pystr" where
  "lit s = map of_char s"

text \<open>Truth value of an object, as \<^verbatim>\<open>if x\<close> and \<^verbatim>\<open>x and y\<close> test it.\<close>

fun truthy :: "pyval \<Rightarrow> bool" where
  "truthy PNone = False"
| "truthy (PStr s) = (s \<noteq> [])"
| "truthy (PBytes b) = (b \<noteq> [])"
| "truthy (PInt n) = (n \<noteq> 0)"

text \<open>
  Subscripting a list, \<^verbatim>\<open>xs[i]\<close>: positions \<open>0\<close> to \<open>len - 1\<close> are read from the front,
  positions \<open>-len\<close> to \<open>-1\<close> from the back, and every other position is an
  \<^verbatim>\<open>IndexError\<close>.
\<close>

definition py_index :: "'a list \<Rightarrow> int \<Rightarrow> error + 'a" where
  "py_index xs i =
     (if 0 \<le> i \<and> i < int (length xs) then Inr (xs ! nat i)
      else if i < 0 \<and> - int (length xs) \<le> i then Inr (xs ! nat (int (length xs) + i))
      else Inl IndexError)"

subsection \<open>\<^verbatim>\<open>bytes.decode('utf-8')\<close>\<close>

text \<open>
  The strict UTF-8 decoder: one to four octets per code point, continuation octets in
  \<open>0x80..0xBF\<close>, no overlong form, no surrogate, nothing above \<open>0x10FFFF\<close>. Any other
  octet sequence raises \<^verbatim>\<open>UnicodeDecodeError\<close>.
\<close>

definition is_cont :: "8 word \<Rightarrow> bool" where
  "is_cont b = (128 \<le> unat b \<and> unat b < 192)"

definition cons_ok :: "nat \<Rightarrow> error + pystr \<Rightarrow> error + pystr" where
  "cons_ok c r = (case r of Inl e \<Rightarrow> Inl e | Inr s \<Rightarrow> Inr (c # s))"

fun utf8_decode :: "pybytes \<Rightarrow> error + pystr" where
  "utf8_decode [] = Inr []"
| "utf8_decode (b0 # bs) =
    (let n0 = unat b0 in
     if n0 < 128 then cons_ok n0 (utf8_decode bs)
     else if 192 \<le> n0 \<and> n0 < 224 then
       (case bs of
          b1 # r1 \<Rightarrow>
            (let c = (n0 - 192) * 64 + (unat b1 - 128) in
             if is_cont b1 \<and> 128 \<le> c then cons_ok c (utf8_decode r1)
             else Inl UnicodeDecodeError)
        | _ \<Rightarrow> Inl UnicodeDecodeError)
     else if 224 \<le> n0 \<and> n0 < 240 then
       (case bs of
          b1 # b2 # r2 \<Rightarrow>
            (let c = (n0 - 224) * 4096 + (unat b1 - 128) * 64 + (unat b2 - 128) in
             if is_cont b1 \<and> is_cont b2 \<and> 2048 \<le> c \<and> \<not> (55296 \<le> c \<and> c \<le> 57343)
             then cons_ok c (utf8_decode r2)
             else Inl UnicodeDecodeError)
        | _ \<Rightarrow> Inl UnicodeDecodeError)
     else if 240 \<le> n0 \<and> n0 < 248 then
       (case bs of
          b1 # b2 # b3 # r3 \<Rightarrow>
            (let c = (n0 - 240) * 262144 + (unat b1 - 128) * 4096 + (unat b2 - 128) * 64
                     + (unat b3 - 128) in
             if is_cont b1 \<and> is_cont b2 \<and> is_cont b3 \<and> 65536 \<le> c \<and> c \<le> 1114111
             then cons_ok c (utf8_decode r3)
             else Inl UnicodeDecodeError)
        | _ \<Rightarrow> Inl UnicodeDecodeError)
     else Inl UnicodeDecodeError)"

subsection \<open>\<^verbatim>\<open>str(n)\<close> for an integer\<close>

fun digits :: "nat \<Rightarrow> pystr" where
  "digits n = (if n < 10 then [48 + n] else digits (n div 10) @ [48 + n mod 10])"

definition str_int :: "int \<Rightarrow> pystr" where
  "str_int n = (if n < 0 then 45 # digits (nat (- n)) else digits (nat n))"

subsection \<open>\<^verbatim>\<open>os.path.basename\<close>\<close>

text \<open>
  \<^verbatim>\<open>posixpath.basename(p)\<close> is \<^verbatim>\<open>p[p.rfind(sep) + 1:]\<close>: what follows the last separator,
  the whole path when it has none. The separator is \<open>/\<close> (code 47), as text or as an octet.
\<close>

definition after_last :: "'a \<Rightarrow> 'a list \<Rightarrow> 'a list" where
  "after_last sep p = rev (takeWhile (\<lambda>c. c \<noteq> sep) (rev p))"

fun os_path_basename :: "pyval \<Rightarrow> error + pyval" where
  "os_path_basename (PStr s) = Inr (PStr (after_last 47 s))"
| "os_path_basename (PBytes b) = Inr (PBytes (after_last 47 b))"
| "os_path_basename PNone = Inl TypeError"
| "os_path_basename (PInt n) = Inl TypeError"

section \<open>The record adapter: \<^verbatim>\<open>ImageEmbeddingDataset.__init__\<close>\<close>

text \<open>
  A record of the dataset loader answers \<^verbatim>\<open>record.get(name)\<close> with the field's value, or
  with \<^verbatim>\<open>None\<close> when it has no such field.
\<close>

type_synonym croissant_record = "pystr \<rightharpoonup> pyval"

definition record_get :: "croissant_record \<Rightarrow> pystr \<Rightarrow> pyval" where
  "record_get r k = (case r k of None \<Rightarrow> PNone | Some v \<Rightarrow> v)"

text \<open>A \<^verbatim>\<open>dict\<close> of text keeps the order in which its keys were inserted.\<close>

type_synonym pydict = "(pystr \<times> pystr) list"

text \<open>
  \<^verbatim>\<open>safe_decode(value, default="")\<close>: \<^verbatim>\<open>bytes\<close> are decoded, \<^verbatim>\<open>None\<close> gives the
  default, and anything else goes through \<^verbatim>\<open>str(value)\<close>, which leaves text as it is
  and writes an integer in decimal.
\<close>

fun safe_decode :: "pyval \<Rightarrow> pystr \<Rightarrow> error + pystr" where
  "safe_decode (PBytes b) dflt = utf8_decode b"
| "safe_decode PNone dflt = Inr dflt"
| "safe_decode (PStr s) dflt = Inr s"
| "safe_decode (PInt n) dflt = Inr (str_int n)"

text \<open>
  Lines 240 to 242: the identifier is the basename of the path, decoded when the path
  (and so its basename) is \<^verbatim>\<open>bytes\<close>.
\<close>

definition image_id_of :: "pyval \<Rightarrow> error + pystr" where
  "image_id_of image_path =
     (case os_path_basename image_path of
        Inl e \<Rightarrow> Inl e
      | Inr (PBytes b) \<Rightarrow> utf8_decode b
      | Inr (PStr s) \<Rightarrow> Inr s
      | Inr _ \<Rightarrow> Inl TypeError)"

text \<open>
  Lines 253 to 261: the seven entries of the metadata dictionary, evaluated in the order
  they are written.
\<close>

definition field_of :: "croissant_record \<Rightarrow> pystr \<Rightarrow> string \<Rightarrow> error + pystr" where
  "field_of r record_set_prefix name =
     safe_decode (record_get r (record_set_prefix @ lit ''/'' @ lit name)) []"

definition build_metadata :: "croissant_record \<Rightarrow> pystr \<Rightarrow> error + pydict" where
  "build_metadata r record_set_prefix =
     (case field_of r record_set_prefix ''treatment'' of Inl e \<Rightarrow> Inl e | Inr treatment \<Rightarrow>
      case field_of r record_set_prefix ''plate'' of Inl e \<Rightarrow> Inl e | Inr plate \<Rightarrow>
      case field_of r record_set_prefix ''well'' of Inl e \<Rightarrow> Inl e | Inr well \<Rightarrow>
      case field_of r record_set_prefix ''channel'' of Inl e \<Rightarrow> Inl e | Inr channel \<Rightarrow>
      case field_of r record_set_prefix ''hpa_antibody_id'' of Inl e \<Rightarrow> Inl e
      | Inr hpa_antibody_id \<Rightarrow>
      case field_of r record_set_prefix ''ensembl_id'' of Inl e \<Rightarrow> Inl e | Inr ensembl_id \<Rightarrow>
      case field_of r record_set_prefix ''ark'' of Inl e \<Rightarrow> Inl e | Inr ark \<Rightarrow>
        Inr [(lit ''treatment'', treatment), (lit ''plate'', plate), (lit ''well'', well),
             (lit ''channel'', channel), (lit ''hpa_antibody_id'', hpa_antibody_id),
             (lit ''ensembl_id'', ensembl_id), (lit ''ark'', ark)])"

text \<open>
  An image is a raster of RGB pixels; a tensor is indexed by channel, row and column.
  The dataset holds the optional transform and three lists that grow together.
\<close>

record image =
  width :: nat
  height :: nat
  pixels :: "(8 word \<times> 8 word \<times> 8 word) list"

type_synonym 'f tensor = "'f list list list"

record 'f ImageEmbeddingDataset =
  transform :: "(image \<Rightarrow> error + 'f tensor) option"
  image_paths :: "pyval list"
  image_ids :: "pystr list"
  metadata :: "pydict list"

text \<open>
  Line 233, \<^verbatim>\<open>max_images and len(self.image_paths) >= max_images\<close>: \<^verbatim>\<open>None\<close> and
  \<open>0\<close> are both false, so the comparison is made for a non-zero cap only.
\<close>

definition cap_reached :: "int option \<Rightarrow> nat \<Rightarrow> bool" where
  "cap_reached max_images n =
     (case max_images of None \<Rightarrow> False | Some m \<Rightarrow> m \<noteq> 0 \<and> m \<le> int n)"

text \<open>
  Line 237, \<^verbatim>\<open>image_path and os.path.exists(image_path)\<close>. The file system is the
  parameter \<open>path_exists\<close>, consulted only for a path that is true as an object.
\<close>

definition resolvable :: "(pyval \<Rightarrow> bool) \<Rightarrow> pystr \<Rightarrow> croissant_record \<Rightarrow> bool" where
  "resolvable path_exists record_set_prefix r =
     (let image_path = record_get r (record_set_prefix @ lit ''/full_path'')
      in truthy image_path \<and> path_exists image_path)"

text \<open>
  The loop of lines 232 to 262, one record per step. \<^verbatim>\<open>break\<close> returns the dataset as it
  stands; an exception leaves the constructor with no dataset. The sample lines the
  constructor prints afterwards (lines 264 to 270) read the first dictionary and change
  nothing.
\<close>

fun init_loop :: "(pyval \<Rightarrow> bool) \<Rightarrow> pystr \<Rightarrow> int option \<Rightarrow> croissant_record list \<Rightarrow>
    'f ImageEmbeddingDataset \<Rightarrow> error + 'f ImageEmbeddingDataset" where
  "init_loop path_exists record_set_prefix max_images [] ds = Inr ds"
| "init_loop path_exists record_set_prefix max_images (r # rs) ds =
    (if cap_reached max_images (length (image_paths ds)) then Inr ds
     else
       let image_path = record_get r (record_set_prefix @ lit ''/full_path'') in
       if truthy image_path \<and> path_exists image_path then
         (case image_id_of image_path of
            Inl e \<Rightarrow> Inl e
          | Inr image_id \<Rightarrow>
              (case build_metadata r record_set_prefix of
                 Inl e \<Rightarrow> Inl e
               | Inr md \<Rightarrow>
                   init_loop path_exists record_set_prefix max_images rs
                     (ds\<lparr>image_paths := image_paths ds @ [image_path],
                         image_ids := image_ids ds @ [image_id],
                         metadata := metadata ds @ [md]\<rparr>)))
       else init_loop path_exists record_set_prefix max_images rs ds)"

definition ImageEmbeddingDataset_init :: "(pyval \<Rightarrow> bool) \<Rightarrow> croissant_record list \<Rightarrow> pystr \<Rightarrow>
    (image \<Rightarrow> error + 'f tensor) option \<Rightarrow> int option \<Rightarrow> error + 'f ImageEmbeddingDataset" where
  "ImageEmbeddingDataset_init path_exists records record_set_prefix tr max_images =
     init_loop path_exists record_set_prefix max_images records
       \<lparr>transform = tr, image_paths = [], image_ids = [], metadata = []\<rparr>"


subsection \<open>The adapter's contract\<close>

text \<open>
  What the loop is compared with: the item built from one accepted record, the cap as a
  cut of the list of accepted records, and the keys of the metadata dictionary.
\<close>

definition build_item :: "croissant_record \<Rightarrow> pystr \<Rightarrow> error + pyval \<times> pystr \<times> pydict" where
  "build_item r record_set_prefix =
     (let image_path = record_get r (record_set_prefix @ lit ''/full_path'') in
      case image_id_of image_path of
        Inl e \<Rightarrow> Inl e
      | Inr image_id \<Rightarrow>
          (case build_metadata r record_set_prefix of
             Inl e \<Rightarrow> Inl e
           | Inr md \<Rightarrow> Inr (image_path, image_id, md)))"

definition capped :: "int option \<Rightarrow> 'a list \<Rightarrow> 'a list" where
  "capped max_images xs =
     (case max_images of None \<Rightarrow> xs | Some m \<Rightarrow> if m = 0 then xs else take (nat m) xs)"

definition meta_keys :: "string list" where
  "meta_keys = [''treatment'', ''plate'', ''well'', ''channel'', ''hpa_antibody_id'',
                ''ensembl_id'', ''ark'']"

section \<open>The accessor: \<^verbatim>\<open>ImageEmbeddingDataset.__getitem__\<close>\<close>

text \<open>
  \<^verbatim>\<open>Image.new('RGB', (w, h), colour)\<close> and \<^verbatim>\<open>torch.zeros(c, h, w)\<close>. Decoding a file,
  \<^verbatim>\<open>Image.open(path).convert('RGB')\<close>, is the parameter \<open>image_open\<close>: it raises for a
  file that is not an image.
\<close>

definition Image_new :: "nat \<Rightarrow> nat \<Rightarrow> 8 word \<times> 8 word \<times> 8 word \<Rightarrow> image" where
  "Image_new w h colour = \<lparr>width = w, height = h, pixels = replicate (w * h) colour\<rparr>"

definition torch_zeros :: "nat \<Rightarrow> nat \<Rightarrow> nat \<Rightarrow> ('f::zero) tensor" where
  "torch_zeros c h w = replicate c (replicate h (replicate w 0))"

text \<open>What the accessor hands out as the image: the decoded image itself when the dataset
  has no transform, a tensor otherwise.\<close>

datatype 'f sample = PilImage image | Tensor "'f tensor"

text \<open>A line printed by the accessor: \<^verbatim>\<open>Error loading image {image_path}: {e}\<close>.\<close>

datatype log_entry = ErrorLoadingImage pyval error

text \<open>The body of the \<^verbatim>\<open>try\<close> block, lines 281 to 283.\<close>

definition try_load :: "(pyval \<Rightarrow> error + image) \<Rightarrow> (image \<Rightarrow> error + 'f tensor) option \<Rightarrow>
    pyval \<Rightarrow> error + 'f sample" where
  "try_load image_open tr image_path =
     (case image_open image_path of
        Inl e \<Rightarrow> Inl e
      | Inr img \<Rightarrow>
          (case tr of
             None \<Rightarrow> Inr (PilImage img)
           | Some t \<Rightarrow> (case t img of Inl e \<Rightarrow> Inl e | Inr x \<Rightarrow> Inr (Tensor x))))"

text \<open>The handler, lines 285 to 289; the transform of line 287 runs outside any \<^verbatim>\<open>try\<close>.\<close>

definition placeholder :: "(image \<Rightarrow> error + ('f::zero) tensor) option \<Rightarrow> error + 'f sample" where
  "placeholder tr =
     (case tr of
        Some t \<Rightarrow> (case t (Image_new 224 224 (0, 0, 0)) of Inl e \<Rightarrow> Inl e | Inr x \<Rightarrow> Inr (Tensor x))
      | None \<Rightarrow> Inr (Tensor (torch_zeros 3 224 224)))"

text \<open>The image of one item, with the lines it prints.\<close>

definition load_sample :: "(pyval \<Rightarrow> error + image) \<Rightarrow> (image \<Rightarrow> error + ('f::zero) tensor) option \<Rightarrow>
    pyval \<Rightarrow> log_entry list \<times> (error + 'f sample)" where
  "load_sample image_open tr image_path =
     (case try_load image_open tr image_path of
        Inr im \<Rightarrow> ([], Inr im)
      | Inl e \<Rightarrow> ([ErrorLoadingImage image_path e], placeholder tr))"

definition ImageEmbeddingDataset_getitem :: "(pyval \<Rightarrow> error + image) \<Rightarrow>
    ('f::zero) ImageEmbeddingDataset \<Rightarrow> int \<Rightarrow>
    log_entry list \<times> (error + 'f sample \<times> pystr \<times> pydict)" where
  "ImageEmbeddingDataset_getitem image_open ds idx =
     (case py_index (image_paths ds) idx of Inl e \<Rightarrow> ([], Inl e) | Inr image_path \<Rightarrow>
      case py_index (image_ids ds) idx of Inl e \<Rightarrow> ([], Inl e) | Inr image_id \<Rightarrow>
      case py_index (metadata ds) idx of Inl e \<Rightarrow> ([], Inl e) | Inr md \<Rightarrow>
        (case load_sample image_open (transform ds) image_path of
           (printed, Inl e) \<Rightarrow> (printed, Inl e)
         | (printed, Inr im) \<Rightarrow> (printed, Inr (im, image_id, md))))"

section \<open>Batching: \<^verbatim>\<open>DataLoader(dataset, batch_size, shuffle=False)\<close>\<close>

text \<open>
  Modelled from the spec: the data loader is library code that the notebook only calls. The
  spec has it partition the items into consecutive batches of \<open>batch_size\<close> items, the
  last one possibly smaller, in the original order. The model is the sampler's loop: append
  each index to the open batch and emit the batch when it is full; emit what is left at
  the end, if anything. A batch size that is not positive is refused when the loader is
  built.
\<close>

fun batch_sampler :: "nat \<Rightarrow> 'a list \<Rightarrow> 'a list \<Rightarrow> 'a list list" where
  "batch_sampler B [] batch = (if batch \<noteq> [] then [batch] else [])"
| "batch_sampler B (i # rest) batch =
     (let batch' = batch @ [i]
      in if length batch' = B then batch' # batch_sampler B rest [] else batch_sampler B rest batch')"

text \<open>
  Modelled from the spec: iterating the loader over \<open>items\<close>, the batches in the order
  they are produced.
\<close>

definition DataLoader_batches :: "int \<Rightarrow> 'a list \<Rightarrow> error + 'a list list" where
  "DataLoader_batches batch_size items =
     (if batch_size \<le> 0 then Inl ValueError else Inr (batch_sampler (nat batch_size) items []))"

text \<open>A list comprehension whose element expression may raise.\<close>

fun map_result :: "('a \<Rightarrow> error + 'b) \<Rightarrow> 'a list \<Rightarrow> error + 'b list" where
  "map_result f [] = Inr []"
| "map_result f (x # xs) =
     (case f x of
        Inl e \<Rightarrow> Inl e
      | Inr y \<Rightarrow> (case map_result f xs of Inl e \<Rightarrow> Inl e | Inr ys \<Rightarrow> Inr (y # ys)))"








section \<open>The embedding loop\<close>







section \<open>The result writer\<close>

text \<open>
  Lines 469 to 476. \<^verbatim>\<open>np.array\<close> makes a matrix of the vectors, which must agree in
  length; \<^verbatim>\<open>shape[1]\<close> does not exist for an empty list. The table is a data frame: its
  column names and its rows of cells. \<^verbatim>\<open>to_csv(sep='\t', index=False)\<close> writes the row
  of column names and then one row of fields per row of the frame; how a number is
  printed and how a field is quoted is left to the library.
\<close>

datatype 'f cell = Text pystr | Num 'f

record 'f DataFrame =
  columns :: "pystr list"
  cells :: "'f cell list list"

definition np_array :: "'f list list \<Rightarrow> error + 'f list list" where
  "np_array vs =
     (case vs of
        [] \<Rightarrow> Inr []
      | v # _ \<Rightarrow> if list_all (\<lambda>u. length u = length v) vs then Inr vs else Inl ValueError)"

definition shape1 :: "'f list list \<Rightarrow> error + nat" where
  "shape1 arr = (case arr of [] \<Rightarrow> Inl IndexError | v # _ \<Rightarrow> Inr (length v))"

definition dim_names :: "nat \<Rightarrow> pystr list" where
  "dim_names embedding_dim = map (\<lambda>i. lit ''dim_'' @ digits i) [0..<embedding_dim]"

definition DataFrame_new :: "'f list list \<Rightarrow> pystr list \<Rightarrow> 'f DataFrame" where
  "DataFrame_new arr cols = \<lparr>columns = cols, cells = map (map Num) arr\<rparr>"

definition DataFrame_insert0 :: "pystr \<Rightarrow> pystr list \<Rightarrow> 'f DataFrame \<Rightarrow> error + 'f DataFrame" where
  "DataFrame_insert0 name vals df =
     (if name \<in> set (columns df) \<or> length vals \<noteq> length (cells df) then Inl ValueError
      else Inr \<lparr>columns = name # columns df,
                cells = map (\<lambda>(v, row). Text v # row) (zip vals (cells df))\<rparr>)"

definition to_csv :: "'f DataFrame \<Rightarrow> 'f cell list list" where
  "to_csv df = map Text (columns df) # cells df"

definition save_embeddings :: "'f list list \<Rightarrow> pystr list \<Rightarrow> error + 'f cell list list" where
  "save_embeddings embs ids =
     (case np_array embs of
        Inl e \<Rightarrow> Inl e
      | Inr embeddings_array \<Rightarrow>
          (case shape1 embeddings_array of
             Inl e \<Rightarrow> Inl e
           | Inr embedding_dim \<Rightarrow>
               (case DataFrame_insert0 (lit ''image_id'') ids
                       (DataFrame_new embeddings_array (dim_names embedding_dim)) of
                  Inl e \<Rightarrow> Inl e
                | Inr embeddings_df \<Rightarrow> Inr (to_csv embeddings_df))))"

section \<open>Example inputs\<close>

text \<open>
  Records as the dataset loader yields them, and a file system on which three of the
  image files exist. They are the inputs at which the theorems below are instantiated.
\<close>

definition blit :: "string \<Rightarrow> pybytes" where
  "blit s = map of_char s"

definition example_prefix :: pystr where
  "example_prefix = lit ''all_images''"

definition record_a :: croissant_record where
  "record_a = map_of
     [(lit ''all_images/full_path'', PStr (lit ''/data/B2AI_1.jpg'')),
      (lit ''all_images/treatment'', PStr (lit ''Vorinostat'')),
      (lit ''all_images/plate'', PInt 1),
      (lit ''all_images/well'', PBytes (blit ''A10''))]"

definition record_b :: croissant_record where
  "record_b = map_of
     [(lit ''all_images/full_path'', PBytes (blit ''/data/b.jpg'')),
      (lit ''all_images/treatment'', PStr (lit ''untreated''))]"

definition record_missing :: croissant_record where
  "record_missing = map_of
     [(lit ''all_images/full_path'', PStr (lit ''/data/gone.jpg'')),
      (lit ''all_images/treatment'', PStr (lit ''Vorinostat''))]"

definition record_nopath :: croissant_record where
  "record_nopath = map_of [(lit ''all_images/treatment'', PStr (lit ''Vorinostat''))]"

definition record_bad :: croissant_record where
  "record_bad = map_of
     [(lit ''all_images/full_path'', PStr (lit ''/data/bad.jpg'')),
      (lit ''all_images/treatment'', PBytes [255])]"

definition example_exists :: "pyval \<Rightarrow> bool" where
  "example_exists p =
     (p = PStr (lit ''/data/B2AI_1.jpg'') \<or> p = PBytes (blit ''/data/b.jpg'')
      \<or> p = PStr (lit ''/data/bad.jpg''))"

definition metadata_a :: pydict where
  "metadata_a =
     [(lit ''treatment'', lit ''Vorinostat''), (lit ''plate'', lit ''1''),
      (lit ''well'', lit ''A10''), (lit ''channel'', []), (lit ''hpa_antibody_id'', []),
      (lit ''ensembl_id'', []), (lit ''ark'', [])]"

definition metadata_b :: pydict where
  "metadata_b =
     [(lit ''treatment'', lit ''untreated''), (lit ''plate'', []),
      (lit ''well'', []), (lit ''channel'', []), (lit ''hpa_antibody_id'', []),
      (lit ''ensembl_id'', []), (lit ''ark'', [])]"

definition dataset_ab :: "real ImageEmbeddingDataset" where
  "dataset_ab =
     \<lparr>transform = None,
      image_paths = [PStr (lit ''/data/B2AI_1.jpg''), PBytes (blit ''/data/b.jpg'')],
      image_ids = [lit ''B2AI_1.jpg'', lit ''b.jpg''],
      metadata = [metadata_a, metadata_b]\<rparr>"

text \<open>
  An image decoder that knows one of the files, a transform that always succeeds, and one
  that crops to 256 by 256 and so refuses a smaller image.
\<close>

definition example_open :: "pyval \<Rightarrow> error + image" where
  "example_open p =
     (if p = PStr (lit ''/data/B2AI_1.jpg'') then Inr (Image_new 4 2 (10, 20, 30))
      else Inl (Raised (lit ''cannot identify image file'')))"

definition example_transform :: "image \<Rightarrow> error + real tensor" where
  "example_transform img = Inr [[[real (width img), real (height img)]]]"

definition crop_256 :: "image \<Rightarrow> error + real tensor" where
  "crop_256 img =
     (if width img < 256 \<or> height img < 256
      then Inl (Raised (lit ''Required crop size is larger than input image size''))
      else Inr [[[0]]])"


section \<open>Properties of the record adapter\<close>

lemma init_loop_cap_zero:
  "init_loop path_exists record_set_prefix (Some 0) rs ds =
   init_loop path_exists record_set_prefix None rs ds"
  by (induction rs arbitrary: ds) (simp_all add: cap_reached_def Let_def split: sum.splits)

lemma map_result_Inr_iff:
  "map_result f xs = Inr ys \<Longrightarrow> list_all2 (\<lambda>x y. f x = Inr y) xs ys"
  by (induction xs arbitrary: ys) (auto split: sum.splits)


lemma init_loop_Cons:
  "init_loop path_exists prefix max_images (r # rs) ds =
     (if cap_reached max_images (length (image_paths ds)) then Inr ds
      else if resolvable path_exists prefix r then
        (case build_item r prefix of
           Inl e \<Rightarrow> Inl e
         | Inr (p, i, md) \<Rightarrow>
             init_loop path_exists prefix max_images rs
               (ds\<lparr>image_paths := image_paths ds @ [p], image_ids := image_ids ds @ [i],
                   metadata := metadata ds @ [md]\<rparr>))
      else init_loop path_exists prefix max_images rs ds)"
  by (simp add: resolvable_def build_item_def Let_def split: sum.splits)

lemma init_loop_char:
  "init_loop path_exists prefix max_images rs ds =
     (case map_result (\<lambda>r. build_item r prefix)
             (case max_images of
                None \<Rightarrow> filter (resolvable path_exists prefix) rs
              | Some m \<Rightarrow>
                  if m = 0 then filter (resolvable path_exists prefix) rs
                  else take (nat m - length (image_paths ds))
                         (filter (resolvable path_exists prefix) rs)) of
        Inl e \<Rightarrow> Inl e
      | Inr items \<Rightarrow>
          Inr (ds\<lparr>image_paths := image_paths ds @ map fst items,
                  image_ids := image_ids ds @ map (fst \<circ> snd) items,
                  metadata := metadata ds @ map (snd \<circ> snd) items\<rparr>))"
proof (induction rs arbitrary: ds)
  case Nil
  then show ?case by (simp split: option.splits)
next
  case (Cons r rs)
  show ?case
  proof (cases "cap_reached max_images (length (image_paths ds))")
    case True
    then obtain m where m: "max_images = Some m" "m \<noteq> 0" "m \<le> int (length (image_paths ds))"
      by (auto simp: cap_reached_def split: option.splits)
    then have "nat m - length (image_paths ds) = 0" by simp
    with True m show ?thesis by (simp add: init_loop_Cons del: init_loop.simps)
  next
    case False
    show ?thesis
    proof (cases "resolvable path_exists prefix r")
      case no: False
      with False Cons.IH [of ds] show ?thesis
        by (simp add: init_loop_Cons del: init_loop.simps split: option.splits)
    next
      case yes: True
      have pos: "max_images = Some m \<Longrightarrow> m \<noteq> 0 \<Longrightarrow>
          nat m - length (image_paths ds) = Suc (nat m - Suc (length (image_paths ds)))" for m
        using False by (auto simp: cap_reached_def)
      show ?thesis
      proof (cases "build_item r prefix")
        case (Inl e)
        with False yes pos show ?thesis
          by (auto simp: init_loop_Cons simp del: init_loop.simps split: option.splits)
      next
        case (Inr item)
        obtain p i md where item: "item = (p, i, md)" by (cases item)
        with False yes pos Inr
          Cons.IH [of "ds\<lparr>image_paths := image_paths ds @ [p], image_ids := image_ids ds @ [i],
                         metadata := metadata ds @ [md]\<rparr>"]
        show ?thesis
          by (auto simp: init_loop_Cons simp del: init_loop.simps split: sum.splits option.splits)
      qed
    qed
  qed
qed




lemma init_char:
  "ImageEmbeddingDataset_init path_exists records prefix tr max_images =
     (case map_result (\<lambda>r. build_item r prefix)
             (capped max_images (filter (resolvable path_exists prefix) records)) of
        Inl e \<Rightarrow> Inl e
      | Inr items \<Rightarrow>
          Inr \<lparr>transform = tr, image_paths = map fst items,
               image_ids = map (fst \<circ> snd) items, metadata = map (snd \<circ> snd) items\<rparr>)"
  unfolding ImageEmbeddingDataset_init_def init_loop_char capped_def
  by (simp split: option.splits sum.splits)


lemma build_item_Inr:
  "build_item r prefix = Inr (p, i, md) \<Longrightarrow>
     p = record_get r (prefix @ lit ''/full_path'') \<and> image_id_of p = Inr i
     \<and> build_metadata r prefix = Inr md"
  by (auto simp: build_item_def Let_def split: sum.splits)


lemmas example_defs =
  ImageEmbeddingDataset_init_def dataset_ab_def cap_reached_def record_get_def
  record_a_def record_b_def record_missing_def record_nopath_def record_bad_def
  example_exists_def example_prefix_def lit_def blit_def image_id_of_def after_last_def
  build_metadata_def field_of_def str_int_def metadata_a_def metadata_b_def cons_ok_def
  is_cont_def




text \<open>
  Claim C10. A cap of \<open>0\<close> is no cap: the constructor does what it does with
  \<^verbatim>\<open>max_images=None\<close>, which is to accept every record with a resolvable image path.
\<close>

theorem cap_zero_is_no_cap:
  "ImageEmbeddingDataset_init path_exists records prefix tr (Some 0) =
     ImageEmbeddingDataset_init path_exists records prefix tr None
   \<and> ImageEmbeddingDataset_init path_exists records prefix tr (Some 0) =
     (case map_result (\<lambda>r. build_item r prefix)
             (filter (resolvable path_exists prefix) records) of
        Inl e \<Rightarrow> Inl e
      | Inr items \<Rightarrow>
          Inr \<lparr>transform = tr, image_paths = map fst items,
               image_ids = map (fst \<circ> snd) items, metadata = map (snd \<circ> snd) items\<rparr>)"
  by (simp add: init_char capped_def)

theorem cap_zero_is_no_cap_witness:
  "ImageEmbeddingDataset_init example_exists [record_nopath, record_a, record_b] example_prefix
     None (Some 0) = Inr dataset_ab
   \<and> filter (resolvable example_exists example_prefix) [record_nopath, record_a, record_b]
     = [record_a, record_b]"
  using cap_zero_is_no_cap [of example_exists "[record_nopath, record_a, record_b]"
      example_prefix None]
  by (simp add: example_defs resolvable_def)

text \<open>
  Claim C9. In a dataset the constructor returns, there is one identifier per stored
  path, and it is the basename of that path: the basename itself for a path that is
  text, its UTF-8 decoding for a path that is \<^verbatim>\<open>bytes\<close>.
\<close>

theorem item_id_is_basename:
  assumes "ImageEmbeddingDataset_init path_exists records prefix tr max_images = Inr ds"
  shows "length (image_ids ds) = length (image_paths ds)
    \<and> (\<forall>i < length (image_paths ds).
          case os_path_basename (image_paths ds ! i) of
            Inr (PStr s) \<Rightarrow> image_ids ds ! i = s
          | Inr (PBytes b) \<Rightarrow> utf8_decode b = Inr (image_ids ds ! i)
          | _ \<Rightarrow> False)"
proof -
  from assms obtain items where
    items: "map_result (\<lambda>r. build_item r prefix)
              (capped max_images (filter (resolvable path_exists prefix) records)) = Inr items"
    and ds: "image_paths ds = map fst items" "image_ids ds = map (fst \<circ> snd) items"
    by (auto simp: init_char split: sum.splits)
  have each: "image_id_of (fst it) = Inr (fst (snd it))" if "it \<in> set items" for it
  proof -
    from map_result_Inr_iff [OF items] that
    obtain r where "build_item r prefix = Inr it"
      by (auto simp: list_all2_conv_all_nth in_set_conv_nth)
    then show ?thesis
      by (cases it) (auto dest: build_item_Inr)
  qed
  have "case os_path_basename (image_paths ds ! i) of
            Inr (PStr s) \<Rightarrow> image_ids ds ! i = s
          | Inr (PBytes b) \<Rightarrow> utf8_decode b = Inr (image_ids ds ! i)
          | _ \<Rightarrow> False" if "i < length (image_paths ds)" for i
  proof -
    from that have "items ! i \<in> set items" by (simp add: ds)
    from each [OF this] that show ?thesis
      by (auto simp: ds image_id_of_def split: sum.splits pyval.splits)
  qed
  then show ?thesis by (simp add: ds)
qed

theorem item_id_is_basename_witness:
  "ImageEmbeddingDataset_init example_exists [record_a, record_missing, record_b] example_prefix
     None None = Inr dataset_ab
   \<and> image_paths dataset_ab ! 0 = PStr (lit ''/data/B2AI_1.jpg'')
   \<and> image_ids dataset_ab ! 0 = lit ''B2AI_1.jpg''
   \<and> os_path_basename (image_paths dataset_ab ! 1) = Inr (PBytes (blit ''b.jpg''))
   \<and> utf8_decode (blit ''b.jpg'') = Inr (image_ids dataset_ab ! 1)"
proof -
  have h: "ImageEmbeddingDataset_init example_exists [record_a, record_missing, record_b]
     example_prefix None None = Inr dataset_ab"
    by (simp add: example_defs)
  from item_id_is_basename [OF h] have "length (image_ids dataset_ab) = 2"
    by (simp add: dataset_ab_def)
  with h show ?thesis
    by (simp add: dataset_ab_def lit_def blit_def after_last_def cons_ok_def)
qed




section \<open>Properties of the accessor\<close>

lemma init_lengths:
  assumes "ImageEmbeddingDataset_init path_exists records prefix tr max_images = Inr ds"
  shows "length (image_ids ds) = length (image_paths ds)"
    and "length (metadata ds) = length (image_paths ds)"
  using assms by (auto simp: init_char split: sum.splits)

lemma py_index_valid:
  "- int (length xs) \<le> i \<Longrightarrow> i < int (length xs) \<Longrightarrow>
   py_index xs i = Inr (xs ! nat (if i < 0 then int (length xs) + i else i))"
  by (simp add: py_index_def)

text \<open>
  Claim C4, as the code has it. At a valid index whose file cannot be decoded, the
  accessor prints one line and hands out the placeholder with the item's identifier and
  metadata: the zero tensor when the dataset has no transform, and otherwise whatever
  the transform makes of the black 224 by 224 image. The transform runs outside the
  \<^verbatim>\<open>try\<close> block there, so if it raises on the black image the accessor raises.
\<close>

theorem getitem_placeholder:
  fixes ds :: "('f::zero) ImageEmbeddingDataset"
  assumes "length (image_ids ds) = length (image_paths ds)"
    and "length (metadata ds) = length (image_paths ds)"
    and "- int (length (image_paths ds)) \<le> idx" and "idx < int (length (image_paths ds))"
    and "j = nat (if idx < 0 then int (length (image_paths ds)) + idx else idx)"
    and "image_open (image_paths ds ! j) = Inl e"
  shows "ImageEmbeddingDataset_getitem image_open ds idx =
     ([ErrorLoadingImage (image_paths ds ! j) e],
      case transform ds of
        None \<Rightarrow> Inr (Tensor (torch_zeros 3 224 224), image_ids ds ! j, metadata ds ! j)
      | Some t \<Rightarrow>
          (case t (Image_new 224 224 (0, 0, 0)) of
             Inl e' \<Rightarrow> Inl e'
           | Inr x \<Rightarrow> Inr (Tensor x, image_ids ds ! j, metadata ds ! j)))
   \<and> width (Image_new 224 224 (0, 0, 0)) = 224 \<and> height (Image_new 224 224 (0, 0, 0)) = 224
   \<and> set (pixels (Image_new 224 224 (0, 0, 0))) = {(0, 0, 0)}
   \<and> (torch_zeros 3 224 224 :: 'f tensor) = replicate 3 (replicate 224 (replicate 224 0))"
proof -
  have "py_index (image_paths ds) idx = Inr (image_paths ds ! j)"
    "py_index (image_ids ds) idx = Inr (image_ids ds ! j)"
    "py_index (metadata ds) idx = Inr (metadata ds ! j)"
    using assms(1-5) by (simp_all add: py_index_valid)
  moreover have "try_load image_open (transform ds) (image_paths ds ! j) = Inl e"
    using assms(6) by (simp add: try_load_def)
  ultimately show ?thesis
    by (simp add: ImageEmbeddingDataset_getitem_def load_sample_def placeholder_def Image_new_def
        torch_zeros_def split: option.splits sum.splits)
qed

theorem getitem_placeholder_witness:
  "ImageEmbeddingDataset_getitem example_open (dataset_ab\<lparr>transform := Some example_transform\<rparr>) (- 1)
     = ([ErrorLoadingImage (PBytes (blit ''/data/b.jpg'')) (Raised (lit ''cannot identify image file''))],
        Inr (Tensor [[[224, 224]]], lit ''b.jpg'', metadata_b))
   \<and> ImageEmbeddingDataset_getitem example_open dataset_ab 1
     = ([ErrorLoadingImage (PBytes (blit ''/data/b.jpg'')) (Raised (lit ''cannot identify image file''))],
        Inr (Tensor (torch_zeros 3 224 224), lit ''b.jpg'', metadata_b))"
proof -
  have o: "example_open (PBytes (blit ''/data/b.jpg'')) = Inl (Raised (lit ''cannot identify image file''))"
    by (simp add: example_open_def)
  have 1: "ImageEmbeddingDataset_getitem example_open (dataset_ab\<lparr>transform := Some example_transform\<rparr>) (- 1)
     = ([ErrorLoadingImage (PBytes (blit ''/data/b.jpg'')) (Raised (lit ''cannot identify image file''))],
        Inr (Tensor [[[224, 224]]], lit ''b.jpg'', metadata_b))"
    using getitem_placeholder [of "dataset_ab\<lparr>transform := Some example_transform\<rparr>" "- 1" 1
        example_open "Raised (lit ''cannot identify image file'')"] o
    by (simp add: dataset_ab_def example_transform_def Image_new_def)
  have 2: "ImageEmbeddingDataset_getitem example_open dataset_ab 1
     = ([ErrorLoadingImage (PBytes (blit ''/data/b.jpg'')) (Raised (lit ''cannot identify image file''))],
        Inr (Tensor (torch_zeros 3 224 224), lit ''b.jpg'', metadata_b))"
    using getitem_placeholder [of dataset_ab 1 1
        example_open "Raised (lit ''cannot identify image file'')"] o
    by (simp add: dataset_ab_def)
  from 1 2 show ?thesis by simp
qed

theorem getitem_raises_counterexample:
  "ImageEmbeddingDataset_getitem example_open (dataset_ab\<lparr>transform := Some crop_256\<rparr>) 1
     = ([ErrorLoadingImage (PBytes (blit ''/data/b.jpg'')) (Raised (lit ''cannot identify image file''))],
        Inl (Raised (lit ''Required crop size is larger than input image size'')))"
  by (simp add: ImageEmbeddingDataset_getitem_def py_index_def dataset_ab_def load_sample_def
      try_load_def example_open_def placeholder_def crop_256_def Image_new_def lit_def blit_def)

section \<open>Properties of the batching\<close>

lemma batch_sampler_nth:
  "0 < B \<Longrightarrow> length acc < B \<Longrightarrow> i < length (batch_sampler B xs acc) \<Longrightarrow>
   batch_sampler B xs acc ! i = take B (drop (i * B) (acc @ xs))"
proof (induction xs arbitrary: acc i)
  case Nil
  then show ?case by (simp split: if_splits)
next
  case (Cons x xs)
  show ?case
  proof (cases "Suc (length acc) = B")
    case True
    show ?thesis
    proof (cases i)
      case 0
      with True [symmetric] show ?thesis by simp
    next
      case (Suc k)
      with True [symmetric] Cons.prems Cons.IH [of "[]" k] show ?thesis
        by (simp add: Let_def)
    qed
  next
    case False
    with Cons.prems Cons.IH [of "acc @ [x]" i] show ?thesis
      by (simp add: Let_def)
  qed
qed

lemma batch_sampler_length:
  "0 < B \<Longrightarrow> length acc < B \<Longrightarrow>
   length (batch_sampler B xs acc) = (length acc + length xs + B - 1) div B"
proof (induction xs arbitrary: acc)
  case Nil
  show ?case
  proof (cases acc)
    case Nil
    with \<open>0 < B\<close> show ?thesis by simp
  next
    case (Cons a as)
    with \<open>length acc < B\<close> have "length acc + B - 1 = B + length as" by simp
    with Cons \<open>length acc < B\<close> show ?thesis by simp
  qed
next
  case (Cons x xs)
  show ?case
  proof (cases "Suc (length acc) = B")
    case True
    then have B: "B = Suc (length acc)" by simp
    have "(Suc (length acc) + (length xs + length acc)) div Suc (length acc)
          = Suc ((length xs + length acc) div Suc (length acc))"
      using div_add_self1 [of "Suc (length acc)" "length xs + length acc"] by simp
    then show ?thesis
      using Cons.IH [of "[]"] by (simp add: Let_def B add.assoc)
  next
    case False
    with Cons.prems Cons.IH [of "acc @ [x]"] show ?thesis
      by (simp add: Let_def)
  qed
qed

lemma batch_sampler_concat:
  "concat (batch_sampler B xs acc) = acc @ xs"
  by (induction xs arbitrary: acc) (simp_all add: Let_def)

lemma div_bounds:
  fixes N B :: nat
  assumes "0 < B"
  shows "N \<le> ((N + B - 1) div B) * B" and "((N + B - 1) div B) * B < N + B"
proof -
  have "N + B - 1 < B + (N + B - 1) div B * B"
    using assms by (rule dividend_less_div_times)
  then show "N \<le> ((N + B - 1) div B) * B" using assms by arith
  have "(N + B - 1) div B * B \<le> N + B - 1" by simp
  then show "((N + B - 1) div B) * B < N + B" using assms by arith
qed

lemma ceil_div_nat:
  fixes N B :: nat
  assumes "0 < B"
  shows "\<lceil>real N / real B\<rceil> = int ((N + B - 1) div B)"
proof (rule ceiling_unique)
  have "real (((N + B - 1) div B) * B) < real (N + B)"
    using div_bounds(2) [OF assms, of N] by (simp only: of_nat_less_iff)
  then have "real ((N + B - 1) div B) * real B < real N + real B" by simp
  then have "real ((N + B - 1) div B) < (real N + real B) / real B"
    using assms by (simp add: pos_less_divide_eq)
  also have "\<dots> = real N / real B + 1"
    using assms by (simp add: add_divide_distrib)
  finally show "of_int (int ((N + B - 1) div B)) - 1 < real N / real B" by simp
  have "real N \<le> real (((N + B - 1) div B) * B)"
    using div_bounds(1) [OF assms, of N] by (simp only: of_nat_le_iff)
  then show "real N / real B \<le> of_int (int ((N + B - 1) div B))"
    using assms by (simp add: pos_divide_le_eq)
qed

lemma full_batches:
  fixes N B i :: nat
  assumes "0 < B" "Suc i < (N + B - 1) div B"
  shows "Suc i * B \<le> N"
proof -
  from assms(2) have "Suc (Suc i) \<le> (N + B - 1) div B" by simp
  then have "Suc (Suc i) * B \<le> (N + B - 1) div B * B" by (rule mult_le_mono1)
  also have "\<dots> < N + B" by (rule div_bounds(2) [OF assms(1)])
  finally show ?thesis by simp
qed

lemma last_batch:
  fixes N B :: nat
  assumes "0 < B" "0 < (N + B - 1) div B"
  shows "((N + B - 1) div B - 1) * B < N"
proof -
  have "((N + B - 1) div B - 1) * B + B = (N + B - 1) div B * B"
    using assms(2) by (simp add: diff_mult_distrib)
  also have "\<dots> < N + B" by (rule div_bounds(2) [OF assms(1)])
  finally show ?thesis by simp
qed


text \<open>
  Claim C3. For a positive batch size \<open>B\<close> the loader cuts \<open>N\<close> items into
  \<open>\<lceil>N / B\<rceil>\<close> batches; batch \<open>i\<close> is the slice of \<open>B\<close> items that starts at
  \<open>i * B\<close>, so the batches are consecutive and their concatenation is the input; every
  batch but the last has exactly \<open>B\<close> items, and the last has between \<open>1\<close> and \<open>B\<close>.
\<close>

theorem dataloader_partition:
  assumes "0 < batch_size"
  shows "\<exists>batches. DataLoader_batches batch_size items = Inr batches
    \<and> int (length batches) = \<lceil>real (length items) / real_of_int batch_size\<rceil>
    \<and> concat batches = items
    \<and> (\<forall>i < length batches.
          batches ! i = take (nat batch_size) (drop (i * nat batch_size) items))
    \<and> (\<forall>i. Suc i < length batches \<longrightarrow> length (batches ! i) = nat batch_size)
    \<and> (batches \<noteq> [] \<longrightarrow>
          0 < length (last batches) \<and> length (last batches) \<le> nat batch_size)"
proof -
  define B where "B = nat batch_size"
  define batches where "batches = batch_sampler B items []"
  have B: "0 < B" using assms by (simp add: B_def)
  have len: "length batches = (length items + B - 1) div B"
    using batch_sampler_length [OF B, of "[]" items] B by (simp add: batches_def)
  have nth: "batches ! i = take B (drop (i * B) items)" if "i < length batches" for i
    using batch_sampler_nth [OF B, of "[]" i items] B that by (simp add: batches_def)
  have "DataLoader_batches batch_size items = Inr batches"
    using assms by (simp add: DataLoader_batches_def batches_def B_def)
  moreover have "int (length batches) = \<lceil>real (length items) / real_of_int batch_size\<rceil>"
  proof -
    have "real_of_int batch_size = real B" using assms by (simp add: B_def)
    then show ?thesis using ceil_div_nat [OF B, of "length items"] len by simp
  qed
  moreover have "concat batches = items"
    by (simp add: batches_def batch_sampler_concat)
  moreover have "length (batches ! i) = B" if "Suc i < length batches" for i
  proof -
    from that have "Suc i * B \<le> length items"
      unfolding len by (rule full_batches [OF B])
    then have "B \<le> length items - i * B" by simp
    with that show ?thesis by (simp add: nth)
  qed
  moreover have "0 < length (last batches) \<and> length (last batches) \<le> B" if "batches \<noteq> []"
  proof -
    from that have pos: "0 < length batches" by simp
    then have "(length batches - 1) * B < length items"
      unfolding len by (rule last_batch [OF B])
    moreover have "last batches = take B (drop ((length batches - 1) * B) items)"
      using that pos by (simp add: last_conv_nth nth)
    ultimately show ?thesis using B by simp
  qed
  ultimately show ?thesis
    using nth unfolding B_def by blast
qed

theorem dataloader_partition_witness:
  "DataLoader_batches 2 [10, 11, 12, 13, 14 :: nat] = Inr [[10, 11], [12, 13], [14]]
   \<and> \<lceil>real (length [10, 11, 12, 13, 14 :: nat]) / real_of_int 2\<rceil> = 3"
proof -
  have "(0::int) < 2" by simp
  from dataloader_partition [OF this, of "[10, 11, 12, 13, 14 :: nat]"]
  obtain batches where "DataLoader_batches 2 [10, 11, 12, 13, 14 :: nat] = Inr batches"
    and "int (length batches) = \<lceil>real (length [10, 11, 12, 13, 14 :: nat]) / real_of_int 2\<rceil>"
    by blast
  moreover have "DataLoader_batches 2 [10, 11, 12, 13, 14 :: nat] = Inr [[10, 11], [12, 13], [14]]"
    by (simp add: DataLoader_batches_def Let_def)
  ultimately show ?thesis by simp
qed

section \<open>Properties of the embedding loop\<close>









lemma build_metadata_keys:
  "build_metadata r prefix = Inr md \<Longrightarrow> map fst md = map lit meta_keys"
  by (auto simp: build_metadata_def meta_keys_def split: sum.splits)


lemma init_metadata_keys:
  assumes "ImageEmbeddingDataset_init path_exists records prefix tr max_images = Inr ds"
  shows "\<forall>md \<in> set (metadata ds). map fst md = map lit meta_keys"
proof -
  from assms obtain items where
    items: "map_result (\<lambda>r. build_item r prefix)
              (capped max_images (filter (resolvable path_exists prefix) records)) = Inr items"
    and ds: "metadata ds = map (snd \<circ> snd) items"
    by (auto simp: init_char split: sum.splits)
  have "map fst (snd (snd it)) = map lit meta_keys" if "it \<in> set items" for it
  proof -
    from map_result_Inr_iff [OF items] that
    obtain r where "build_item r prefix = Inr it"
      by (auto simp: list_all2_conv_all_nth in_set_conv_nth)
    then have "build_metadata r prefix = Inr (snd (snd it))"
      by (cases it) (auto dest: build_item_Inr)
    then show ?thesis
      by (rule build_metadata_keys)
  qed
  then show ?thesis by (auto simp: ds)
qed







section \<open>Properties of the result writer\<close>

lemma image_id_not_dim: "lit ''image_id'' \<notin> set (dim_names k)"
  by (auto simp: dim_names_def lit_def)

lemma np_array_same:
  "\<forall>v \<in> set embs. length v = k \<Longrightarrow> np_array embs = Inr embs"
  by (cases embs) (auto simp: np_array_def list_all_iff)

text \<open>
  Claim C7, as the code has it. For at least one embedding row, all vectors of length
  \<open>k\<close> and as many identifiers as vectors, the file is the row of the \<open>1 + k\<close> column
  names \<open>image_id, dim_0, ..., dim_(k-1)\<close> followed by one row per embedding row, in
  order: the identifier and then the \<open>k\<close> numbers of the vector.
\<close>

theorem writer_table:
  assumes "embs \<noteq> []" and "\<forall>v \<in> set embs. length v = k" and "length ids = length embs"
  shows "\<exists>table. save_embeddings embs ids = Inr table
    \<and> hd table = map Text (lit ''image_id'' # map (\<lambda>i. lit ''dim_'' @ digits i) [0..<k])
    \<and> tl table = map (\<lambda>(image_id, v). Text image_id # map Num v) (zip ids embs)
    \<and> length (tl table) = length embs
    \<and> (\<forall>row \<in> set table. length row = 1 + k)"
proof -
  from assms(1) obtain v vs where embs: "embs = v # vs" by (cases embs) auto
  with assms(2) have k: "length v = k" by simp
  have arr: "np_array embs = Inr embs" using assms(2) by (rule np_array_same)
  have dim: "shape1 embs = Inr k" by (simp add: shape1_def embs k)
  have ins: "DataFrame_insert0 (lit ''image_id'') ids (DataFrame_new embs (dim_names k))
      = Inr \<lparr>columns = lit ''image_id'' # dim_names k,
             cells = map (\<lambda>(image_id, row). Text image_id # row) (zip ids (map (map Num) embs))\<rparr>"
    using assms(3) by (simp add: DataFrame_insert0_def DataFrame_new_def image_id_not_dim)
  have zipmap: "map (\<lambda>(image_id, row). Text image_id # row) (zip ids (map (map Num) embs))
      = map (\<lambda>(image_id, v). Text image_id # map Num v) (zip ids embs)"
    by (simp add: zip_map2 case_prod_unfold)
  have save: "save_embeddings embs ids =
      Inr (map Text (lit ''image_id'' # dim_names k)
           # map (\<lambda>(image_id, v). Text image_id # map Num v) (zip ids embs))"
    by (simp add: save_embeddings_def arr dim ins to_csv_def zipmap)
  have rows: "length row = 1 + k"
    if "row \<in> set (map (\<lambda>(image_id, v). Text image_id # map Num v) (zip ids embs))" for row
    using that assms(2) by (auto dest: set_zip_rightD)
  show ?thesis
    unfolding save using assms(3) rows by (auto simp: dim_names_def)
qed

theorem writer_table_witness:
  "save_embeddings [[1/2, 3/2], [2, 3 :: real]] [lit ''B2AI_1.jpg'', lit ''b.jpg'']
   = Inr [[Text (lit ''image_id''), Text (lit ''dim_0''), Text (lit ''dim_1'')],
          [Text (lit ''B2AI_1.jpg''), Num (1/2), Num (3/2)],
          [Text (lit ''b.jpg''), Num 2, Num 3]]"
proof -
  have "\<forall>v \<in> set [[1/2, 3/2], [2, 3 :: real]]. length v = 2" by simp
  from writer_table [OF _ this, of "[lit ''B2AI_1.jpg'', lit ''b.jpg'']"]
  obtain table where "save_embeddings [[1/2, 3/2], [2, 3 :: real]] [lit ''B2AI_1.jpg'', lit ''b.jpg'']
      = Inr table"
    and "hd table = map Text (lit ''image_id'' # map (\<lambda>i. lit ''dim_'' @ digits i) [0..<2])"
    and "tl table = map (\<lambda>(image_id, v). Text image_id # map Num v)
           (zip [lit ''B2AI_1.jpg'', lit ''b.jpg''] [[1/2, 3/2], [2, 3 :: real]])"
    by auto
  moreover have "[0..<2] = [0, 1]" by (simp add: upt_rec)
  ultimately show ?thesis
    by (cases table) (simp_all add: lit_def save_embeddings_def np_array_def shape1_def)
qed

theorem writer_empty_counterexample:
  "save_embeddings ([] :: real list list) [] = Inl IndexError"
  by (simp add: save_embeddings_def np_array_def shape1_def)

end
